theory Spec2Isabelle
  imports Complex_Main "HOL-Library.Word" "HOL-Library.Code_Target_Numeral"
begin

section \<open>The SDK collaborator\<close>

text \<open>
  \<open>hailo_perf_query.cpp\<close> is one \<open>main\<close> that talks to the HailoRT SDK
  (\<open>Device::scan\<close>, \<open>Device::create\<close>, \<open>query_performance_stats\<close>,
  \<open>query_health_stats\<close>) and to the C library (\<open>printf\<close>, \<open>fprintf\<close>).
  Neither is part of the repository, so the SDK is a record of operations that \<open>main\<close>
  receives, each one a function of the state of the outside world \<open>'w\<close> (driver, device
  counters) that returns its \<open>Expected\<close> result and the next state of the world.
  \<open>Expected<T>\<close> is the sum \<open>hailo_status + T\<close>, \<open>Inl\<close> carrying the status of a failure.
\<close>

type_synonym hailo_status = "32 word"

text \<open>
  Modelled from the spec: the field types of the two SDK structs (the header
  \<open>hailo/hailort.hpp\<close> is not in the repository). Section 3 of the specification gives
  the byte counts as 64-bit unsigned and the remaining integer fields as integers; the
  source passes the latter to \<open>%d\<close> with no cast, which reads a C \<open>int\<close>. The
  floating fields have the abstract type \<open>'f\<close>.
\<close>

record 'f hailo_performance_stats =
  cpu_utilization :: 'f
  ram_size_total :: "64 word"
  ram_size_used :: "64 word"
  nnc_utilization :: 'f
  dsp_utilization :: "32 word"

record 'f hailo_health_stats =
  on_die_temperature :: 'f
  on_die_voltage :: "32 word"
  bist_failure_mask :: "32 word"

record ('w, 'id, 'h, 'f) sdk =
  scan :: "'w \<Rightarrow> (hailo_status + 'id list) \<times> 'w"
  create :: "'id \<Rightarrow> 'w \<Rightarrow> (hailo_status + 'h) \<times> 'w"
  query_performance_stats ::
    "'h \<Rightarrow> 'w \<Rightarrow> (hailo_status + 'f hailo_performance_stats) \<times> 'w"
  query_health_stats ::
    "'h \<Rightarrow> 'w \<Rightarrow> (hailo_status + 'f hailo_health_stats) \<times> 'w"

section \<open>The process\<close>

text \<open>
  The state of the process: the world the SDK acts on, what has been written to the two
  streams, and the SDK operations invoked so far, in order.
\<close>

datatype ('id, 'h) sdk_call =
  Scan | Create 'id | QueryPerformanceStats 'h | QueryHealthStats 'h

record ('w, 'id, 'h) process =
  world :: 'w
  stdout :: string
  stderr :: string
  calls :: "('id, 'h) sdk_call list"

definition printf :: "string \<Rightarrow> ('w, 'id, 'h) process \<Rightarrow> ('w, 'id, 'h) process" where
  "printf s st = st\<lparr>stdout := stdout st @ s\<rparr>"

definition fprintf_stderr ::
  "string \<Rightarrow> ('w, 'id, 'h) process \<Rightarrow> ('w, 'id, 'h) process" where
  "fprintf_stderr s st = st\<lparr>stderr := stderr st @ s\<rparr>"

definition invoke ::
  "('id, 'h) sdk_call \<Rightarrow> ('w \<Rightarrow> 'r \<times> 'w) \<Rightarrow> ('w, 'id, 'h) process
    \<Rightarrow> 'r \<times> ('w, 'id, 'h) process" where
  "invoke c f st =
     (let (r, w') = f (world st) in (r, st\<lparr>world := w', calls := calls st @ [c]\<rparr>))"

subsection \<open>printf conversions\<close>

text \<open>
  \<open>%d\<close> and \<open>%lld\<close> print a signed integer in decimal; \<open>fmt_d\<close> is that rendering of a
  mathematical integer, and the width is in the cast that produces the argument
  (\<open>sint\<close> of a 32-bit or a 64-bit word). \<open>%g\<close> is a parameter of \<open>main\<close>:
  the text the C library prints for a floating value.
\<close>

definition digit_char :: "nat \<Rightarrow> char" where
  "digit_char d = ''0123456789'' ! d"

fun show_nat :: "nat \<Rightarrow> string" where
  "show_nat n = (if n < 10 then [digit_char n] else show_nat (n div 10) @ [digit_char (n mod 10)])"

declare show_nat.simps [simp del]

definition fmt_d :: "int \<Rightarrow> string" where
  "fmt_d i = (if i < 0 then CHR ''-'' # show_nat (nat (- i)) else show_nat (nat i))"

subsection \<open>The two output blocks\<close>

definition print_performance ::
  "('f \<Rightarrow> string) \<Rightarrow> hailo_status + 'f hailo_performance_stats
    \<Rightarrow> ('w, 'id, 'h) process \<Rightarrow> ('w, 'id, 'h) process" where
  \<open>print_performance fmt_g perf st =
     (case perf of
        Inr p \<Rightarrow>
          (let st = printf (''  "cpu_utilization": '' @ fmt_g (cpu_utilization p) @ '',\<newline>'') st;
               st = printf (''  "ram_size_total": '' @ fmt_d (sint (ram_size_total p)) @ '',\<newline>'') st;
               st = printf (''  "ram_size_used": '' @ fmt_d (sint (ram_size_used p)) @ '',\<newline>'') st;
               st = printf (''  "nnc_utilization": '' @ fmt_g (nnc_utilization p) @ '',\<newline>'') st;
               st = printf (''  "dsp_utilization": '' @ fmt_d (sint (dsp_utilization p)) @ '',\<newline>'') st
           in printf ''  "perf_ok": true,\<newline>'' st)
      | Inl status \<Rightarrow>
          (let st = printf ''  "perf_ok": false,\<newline>'' st
           in printf (''  "perf_error": '' @ fmt_d (sint status) @ '',\<newline>'') st))\<close>

definition print_health ::
  "('f \<Rightarrow> string) \<Rightarrow> hailo_status + 'f hailo_health_stats
    \<Rightarrow> ('w, 'id, 'h) process \<Rightarrow> ('w, 'id, 'h) process" where
  \<open>print_health fmt_g health st =
     (case health of
        Inr h \<Rightarrow>
          (let st = printf (''  "on_die_temperature": '' @ fmt_g (on_die_temperature h) @ '',\<newline>'') st;
               st = printf (''  "on_die_voltage": '' @ fmt_d (sint (on_die_voltage h)) @ '',\<newline>'') st;
               st = printf (''  "bist_failure_mask": '' @ fmt_d (sint (bist_failure_mask h)) @ '',\<newline>'') st
           in printf ''  "health_ok": true\<newline>'' st)
      | Inl status \<Rightarrow>
          (let st = printf ''  "health_ok": false,\<newline>'' st
           in printf (''  "health_error": '' @ fmt_d (sint status) @ ''\<newline>'') st))\<close>

subsection \<open>main\<close>

text \<open>The result of \<open>main\<close> is the exit code and the final state of the process.\<close>

definition main ::
  "('f \<Rightarrow> string) \<Rightarrow> ('w, 'id, 'h, 'f) sdk \<Rightarrow> 'w \<Rightarrow> int \<times> ('w, 'id, 'h) process" where
  \<open>main fmt_g s w0 =
     (let st = \<lparr>world = w0, stdout = [], stderr = [], calls = []\<rparr>;
          (scan_result, st) = invoke Scan (scan s) st
      in case scan_result of
           Inl _ \<Rightarrow> (1, fprintf_stderr ''hailo_perf_query: no devices found\<newline>'' st)
         | Inr [] \<Rightarrow> (1, fprintf_stderr ''hailo_perf_query: no devices found\<newline>'' st)
         | Inr (first # _) \<Rightarrow>
             (let (device, st) = invoke (Create first) (create s first) st
              in case device of
                   Inl status \<Rightarrow>
                     (1, fprintf_stderr
                           (''hailo_perf_query: failed to open device (status=''
                              @ fmt_d (sint status) @ '')\<newline>'') st)
                 | Inr dev \<Rightarrow>
                     (let (perf, st) =
                            invoke (QueryPerformanceStats dev) (query_performance_stats s dev) st;
                          (health, st) =
                            invoke (QueryHealthStats dev) (query_health_stats s dev) st;
                          st = printf ''{\<newline>'' st;
                          st = print_performance fmt_g perf st;
                          st = print_health fmt_g health st;
                          st = printf ''}\<newline>'' st
                      in (0, st))))\<close>

section \<open>Observing a run\<close>

text \<open>The identifiers passed to \<open>Device::create\<close> and the handles queried, read off the calls.\<close>

fun opened :: "('id, 'h) sdk_call list \<Rightarrow> 'id list" where
  "opened [] = []"
| "opened (Create i # cs) = i # opened cs"
| "opened (_ # cs) = opened cs"

fun queried :: "('id, 'h) sdk_call list \<Rightarrow> 'h list" where
  "queried [] = []"
| "queried (QueryPerformanceStats h # cs) = h # queried cs"
| "queried (QueryHealthStats h # cs) = h # queried cs"
| "queried (_ # cs) = queried cs"

text \<open>Reading a decimal numeral back: the value of a digit string, and of a signed one.\<close>

definition is_digit :: "char \<Rightarrow> bool" where
  "is_digit c = (c \<in> set ''0123456789'')"

definition dec_value :: "string \<Rightarrow> nat" where
  "dec_value s = foldl (\<lambda>a c. 10 * a + (of_char c - 48)) 0 s"

definition read_d :: "string \<Rightarrow> int" where
  "read_d s =
     (case s of
        [] \<Rightarrow> 0
      | c # r \<Rightarrow> if c = CHR ''-'' then - int (dec_value r) else int (dec_value s))"

subsection \<open>A reader of flat JSON objects\<close>

text \<open>
  \<open>read_object\<close> accepts a text that is exactly one JSON object, with white space around
  it and between its tokens, whose members are \<open>"key": value\<close> pairs with a key of
  printable ASCII characters other than the quote, the backslash and the comma, and a
  value that is a JSON number, \<open>true\<close>, \<open>false\<close> or \<open>null\<close>.
  It returns the members in the order of the text. Every text it accepts is well-formed
  JSON (RFC 8259); it rejects objects with nested or string values, which \<open>main\<close>
  never prints.
\<close>

definition is_ws :: "char \<Rightarrow> bool" where
  "is_ws c = (c \<in> set [CHR '' '', CHR ''\<newline>'', CHR 0x09, CHR 0x0D])"

definition trim :: "string \<Rightarrow> string" where
  "trim s = rev (dropWhile is_ws (rev (dropWhile is_ws s)))"

definition digits1 :: "string \<Rightarrow> bool" where
  "digits1 s = (s \<noteq> [] \<and> list_all is_digit s)"

definition json_int :: "string \<Rightarrow> bool" where
  "json_int s = (s = ''0'' \<or> (digits1 s \<and> hd s \<noteq> CHR ''0''))"

definition json_exp :: "string \<Rightarrow> bool" where
  "json_exp s =
     (case s of
        [] \<Rightarrow> True
      | e # r \<Rightarrow> (e = CHR ''e'' \<or> e = CHR ''E'') \<and>
          (case r of
             [] \<Rightarrow> False
           | sg # r' \<Rightarrow> if sg = CHR ''+'' \<or> sg = CHR ''-'' then digits1 r' else digits1 r))"

definition json_frac_exp :: "string \<Rightarrow> bool" where
  "json_frac_exp s =
     (case s of
        [] \<Rightarrow> True
      | c # r \<Rightarrow> if c = CHR ''.''
          then digits1 (takeWhile is_digit r) \<and> json_exp (dropWhile is_digit r)
          else json_exp s)"

definition json_number :: "string \<Rightarrow> bool" where
  "json_number s =
     (let u = (case s of [] \<Rightarrow> [] | c # r \<Rightarrow> if c = CHR ''-'' then r else s)
      in json_int (takeWhile is_digit u) \<and> json_frac_exp (dropWhile is_digit u))"

definition json_scalar :: "string \<Rightarrow> bool" where
  "json_scalar v = (json_number v \<or> v = ''true'' \<or> v = ''false'' \<or> v = ''null'')"

definition key_ok :: "string \<Rightarrow> bool" where
  "key_ok k =
     list_all (\<lambda>c. c \<noteq> CHR 0x22 \<and> c \<noteq> CHR 0x5C \<and> c \<noteq> CHR '',''
                 \<and> 32 \<le> (of_char c :: nat) \<and> (of_char c :: nat) < 127) k"

fun split_on :: "char \<Rightarrow> string \<Rightarrow> string \<Rightarrow> string list" where
  "split_on c acc [] = [rev acc]"
| "split_on c acc (x # xs) =
     (if x = c then rev acc # split_on c [] xs else split_on c (x # acc) xs)"

definition read_member :: "string \<Rightarrow> (string \<times> string) option" where
  "read_member piece =
     (case dropWhile is_ws piece of
        [] \<Rightarrow> None
      | q # r \<Rightarrow>
          if q \<noteq> CHR 0x22 then None
          else (let key = takeWhile (\<lambda>c. c \<noteq> CHR 0x22) r in
            case dropWhile (\<lambda>c. c \<noteq> CHR 0x22) r of
              [] \<Rightarrow> None
            | _ # r1 \<Rightarrow>
                (case dropWhile is_ws r1 of
                   [] \<Rightarrow> None
                 | col # r2 \<Rightarrow>
                     if col = CHR '':'' \<and> key_ok key \<and> json_scalar (trim r2)
                     then Some (key, trim r2) else None)))"

definition read_object :: "string \<Rightarrow> (string \<times> string) list option" where
  "read_object s =
     (case trim s of
        [] \<Rightarrow> None
      | b # r \<Rightarrow>
          if b = CHR ''{'' \<and> r \<noteq> [] \<and> last r = CHR ''}''
          then (if trim (butlast r) = [] then Some []
                else (let ms = map read_member (split_on CHR '','' [] (butlast r))
                      in if list_all (\<lambda>m. m \<noteq> None) ms then Some (map the ms) else None))
          else None)"




subsection \<open>The renderer of the specification\<close>

text \<open>
  Section 4.4 of the specification, in its own words: the members of the performance
  block and of the health block, by outcome, and the text of an object with two-space
  indentation, one member per line.
\<close>

definition spec_perf_block ::
  "('f \<Rightarrow> string) \<Rightarrow> hailo_status + 'f hailo_performance_stats \<Rightarrow> (string \<times> string) list" where
  "spec_perf_block fmt_g perf =
     (case perf of
        Inr p \<Rightarrow>
          [(''cpu_utilization'', fmt_g (cpu_utilization p)),
           (''ram_size_total'', fmt_d (sint (ram_size_total p))),
           (''ram_size_used'', fmt_d (sint (ram_size_used p))),
           (''nnc_utilization'', fmt_g (nnc_utilization p)),
           (''dsp_utilization'', fmt_d (sint (dsp_utilization p))),
           (''perf_ok'', ''true'')]
      | Inl code \<Rightarrow> [(''perf_ok'', ''false''), (''perf_error'', fmt_d (sint code))])"

definition spec_health_block ::
  "('f \<Rightarrow> string) \<Rightarrow> hailo_status + 'f hailo_health_stats \<Rightarrow> (string \<times> string) list" where
  "spec_health_block fmt_g health =
     (case health of
        Inr h \<Rightarrow>
          [(''on_die_temperature'', fmt_g (on_die_temperature h)),
           (''on_die_voltage'', fmt_d (sint (on_die_voltage h))),
           (''bist_failure_mask'', fmt_d (sint (bist_failure_mask h))),
           (''health_ok'', ''true'')]
      | Inl code \<Rightarrow> [(''health_ok'', ''false''), (''health_error'', fmt_d (sint code))])"

definition member_text :: "string \<times> string \<Rightarrow> string" where
  \<open>member_text m = ''  "'' @ fst m @ ''": '' @ snd m\<close>

fun join_lines :: "string list \<Rightarrow> string" where
  "join_lines [] = []"
| "join_lines [l] = l"
| "join_lines (l # ls) = l @ '',\<newline>'' @ join_lines ls"

definition object_text :: "(string \<times> string) list \<Rightarrow> string" where
  "object_text ms = ''{\<newline>'' @ join_lines (map member_text ms) @ ''\<newline>}\<newline>''"

subsection \<open>A fake SDK\<close>

text \<open>An SDK with fixed answers, whose world counts the calls made.\<close>

definition fake_sdk ::
  "(hailo_status + nat list) \<Rightarrow> (nat \<Rightarrow> hailo_status + nat)
    \<Rightarrow> (hailo_status + 'f hailo_performance_stats)
    \<Rightarrow> (hailo_status + 'f hailo_health_stats) \<Rightarrow> (nat, nat, nat, 'f) sdk" where
  "fake_sdk sc cr pf hl =
     \<lparr>scan = (\<lambda>w. (sc, w + 1)),
      create = (\<lambda>i w. (cr i, w + 1)),
      query_performance_stats = (\<lambda>h w. (pf, w + 1)),
      query_health_stats = (\<lambda>h w. (hl, w + 1))\<rparr>"

subsection \<open>Sample values\<close>

text \<open>
  The values of property P3 of the specification, a formatter that prints them as
  \<open>%g\<close> does, and records whose total byte count and self-test mask have their top
  bit set.
\<close>

definition fmt_g_sample :: "real \<Rightarrow> string" where
  "fmt_g_sample x =
     (if x = 0.42 then ''0.42'' else if x = 0.1 then ''0.1''
      else if x = 55.5 then ''55.5'' else ''0'')"

definition perf_sample :: "real hailo_performance_stats" where
  "perf_sample =
     \<lparr>cpu_utilization = 0.42, ram_size_total = 1073741824, ram_size_used = 536870912,
      nnc_utilization = 0.10, dsp_utilization = 5\<rparr>"

definition health_sample :: "real hailo_health_stats" where
  "health_sample = \<lparr>on_die_temperature = 55.5, on_die_voltage = 900, bist_failure_mask = 0\<rparr>"

definition perf_top_bit :: "real hailo_performance_stats" where
  "perf_top_bit = perf_sample\<lparr>ram_size_total := 9223372036854775808\<rparr>"

definition health_top_bit :: "real hailo_health_stats" where
  "health_top_bit = health_sample\<lparr>bist_failure_mask := 2147483648\<rparr>"

subsection \<open>Non-finite floating values\<close>

text \<open>
  A floating type with the non-finite values of IEEE 754, and \<open>%g\<close> on it: the C library
  prints an infinity as \<open>inf\<close> or \<open>-inf\<close> and a NaN as \<open>nan\<close> (C11, 7.21.6.1).
\<close>

datatype c_float = Finite real | PlusInf | MinusInf | NaN

definition fmt_g_ieee :: "c_float \<Rightarrow> string" where
  "fmt_g_ieee x =
     (case x of
        Finite r \<Rightarrow> fmt_g_sample r
      | PlusInf \<Rightarrow> ''inf''
      | MinusInf \<Rightarrow> ''-inf''
      | NaN \<Rightarrow> ''nan'')"

definition perf_finite :: "c_float hailo_performance_stats" where
  "perf_finite =
     \<lparr>cpu_utilization = Finite 0.42, ram_size_total = 1073741824, ram_size_used = 536870912,
      nnc_utilization = Finite 0.10, dsp_utilization = 5\<rparr>"

definition health_finite :: "c_float hailo_health_stats" where
  "health_finite =
     \<lparr>on_die_temperature = Finite 55.5, on_die_voltage = 900, bist_failure_mask = 0\<rparr>"

definition health_nan :: "c_float hailo_health_stats" where
  "health_nan = health_finite\<lparr>on_die_temperature := NaN\<rparr>"

subsection \<open>Auxiliary predicates\<close>


text \<open>The characters of a JSON number, and a member that \<open>read_member\<close> accepts.\<close>

definition num_char :: "char \<Rightarrow> bool" where
  "num_char c = (c \<in> set ''0123456789+-.eE'')"

definition member_ok :: "string \<times> string \<Rightarrow> bool" where
  "member_ok m = (key_ok (fst m) \<and> json_scalar (snd m))"

section \<open>Decimal rendering\<close>

lemma digit_char_cases:
  "d < 10 \<Longrightarrow> d = 0 \<or> d = 1 \<or> d = 2 \<or> d = 3 \<or> d = 4 \<or> d = 5 \<or> d = 6 \<or> d = 7 \<or> d = 8 \<or> d = (9::nat)"
  by arith

lemma is_digit_digit_char: "d < 10 \<Longrightarrow> is_digit (digit_char d)"
  using digit_char_cases [of d] by (auto simp: is_digit_def digit_char_def)

lemma of_char_digit_char: "d < 10 \<Longrightarrow> (of_char (digit_char d) :: nat) = 48 + d"
  using digit_char_cases [of d] by (auto simp: digit_char_def)

lemma show_nat_digits: "list_all is_digit (show_nat n)"
proof (induction n rule: show_nat.induct)
  case (1 n)
  show ?case
  proof (cases "n < 10")
    case True
    then show ?thesis by (subst show_nat.simps) (simp add: is_digit_digit_char)
  next
    case False
    with 1 have "list_all is_digit (show_nat (n div 10))" by simp
    moreover have "is_digit (digit_char (n mod 10))" by (simp add: is_digit_digit_char)
    ultimately show ?thesis using False by (subst show_nat.simps) simp
  qed
qed

lemma show_nat_nonempty: "show_nat n \<noteq> []"
  by (subst show_nat.simps) simp

lemma dec_value_snoc: "dec_value (s @ [c]) = 10 * dec_value s + (of_char c - 48)"
  by (simp add: dec_value_def)

lemma dec_value_show_nat: "dec_value (show_nat n) = n"
proof (induction n rule: show_nat.induct)
  case (1 n)
  show ?case
  proof (cases "n < 10")
    case True
    then show ?thesis by (subst show_nat.simps) (simp add: dec_value_def of_char_digit_char)
  next
    case False
    with 1 have ih: "dec_value (show_nat (n div 10)) = n div 10" by simp
    have "show_nat n = show_nat (n div 10) @ [digit_char (n mod 10)]"
      using False by (subst show_nat.simps) simp
    then show ?thesis
      by (simp add: dec_value_snoc ih of_char_digit_char)
  qed
qed

lemma show_nat_no_minus: "hd (show_nat n) \<noteq> CHR ''-''"
proof -
  have "is_digit (hd (show_nat n))"
    using show_nat_digits [of n] show_nat_nonempty [of n]
    by (cases "show_nat n") simp_all
  then show ?thesis by (auto simp: is_digit_def)
qed

lemma read_d_fmt_d: "read_d (fmt_d i) = i"
proof (cases "i < 0")
  case True
  then show ?thesis by (simp add: read_d_def fmt_d_def dec_value_show_nat)
next
  case False
  obtain c r where cr: "show_nat (nat i) = c # r"
    using show_nat_nonempty [of "nat i"] by (cases "show_nat (nat i)") auto
  with show_nat_no_minus [of "nat i"] have "c \<noteq> CHR ''-''" by simp
  with cr False show ?thesis
    using dec_value_show_nat [of "nat i"] by (simp add: read_d_def fmt_d_def)
qed

lemma fmt_d_chars: "list_all (\<lambda>c. is_digit c \<or> c = CHR ''-'') (fmt_d i)"
proof -
  have "list_all (\<lambda>c. is_digit c \<or> c = CHR ''-'') (show_nat n)" for n
    using show_nat_digits [of n] by (simp add: list_all_iff)
  then show ?thesis by (simp add: fmt_d_def)
qed

lemma is_digit_not_newline: "is_digit c \<Longrightarrow> c \<noteq> CHR ''\<newline>''"
  by (auto simp: is_digit_def)

lemma fmt_d_no_newline: "CHR ''\<newline>'' \<notin> set (fmt_d i)"
proof
  assume "CHR ''\<newline>'' \<in> set (fmt_d i)"
  with fmt_d_chars [of i] have "is_digit CHR ''\<newline>'' \<or> CHR ''\<newline>'' = CHR ''-''"
    unfolding list_all_iff by blast
  then show False using is_digit_not_newline by auto
qed

section \<open>Numbers and tokens\<close>

lemma set_take_drop_while: "set xs = set (takeWhile P xs) \<union> set (dropWhile P xs)"
  by (simp only: set_append [symmetric] takeWhile_dropWhile_id)

lemma is_digit_num_char: "is_digit c \<Longrightarrow> num_char c"
  by (auto simp: is_digit_def num_char_def)

lemma digits_num_char: "list_all is_digit s \<Longrightarrow> c \<in> set s \<Longrightarrow> num_char c"
  by (auto simp: list_all_iff is_digit_num_char)

lemma num_tail_exp:
  assumes "json_exp e" and "c \<in> set e"
  shows "num_char c"
proof (cases e)
  case Nil
  with assms show ?thesis by simp
next
  case (Cons x r)
  note e = Cons
  show ?thesis
  proof (cases r)
    case Nil
    with assms e show ?thesis by (simp add: json_exp_def)
  next
    case (Cons sg r')
    with assms(1) e have x: "x = CHR ''e'' \<or> x = CHR ''E''"
      and d: "list_all is_digit r'" and s: "sg = CHR ''+'' \<or> sg = CHR ''-'' \<or> is_digit sg"
      by (auto simp: json_exp_def digits1_def split: if_splits)
    from x have nx: "num_char x" by (auto simp: num_char_def)
    from s have ns: "num_char sg" by (auto simp: num_char_def is_digit_def)
    from assms(2) e Cons have "c = x \<or> c = sg \<or> c \<in> set r'" by auto
    with nx ns d show ?thesis using digits_num_char by blast
  qed
qed

lemma num_tail_frac:
  assumes "json_frac_exp t" and "c \<in> set t"
  shows "num_char c"
proof (cases t)
  case Nil
  with assms show ?thesis by simp
next
  case (Cons x r)
  show ?thesis
  proof (cases "x = CHR ''.''")
    case True
    with assms Cons have ex: "json_exp (dropWhile is_digit r)" by (simp add: json_frac_exp_def)
    from assms(2) Cons True set_take_drop_while [of r is_digit]
    consider "c = CHR ''.''" | "c \<in> set (takeWhile is_digit r)" | "c \<in> set (dropWhile is_digit r)"
      by auto
    then show ?thesis
    proof cases
      case 1 then show ?thesis by (simp add: num_char_def)
    next
      case 2
      then have "is_digit c" by (rule set_takeWhileD [THEN conjunct2])
      then show ?thesis by (rule is_digit_num_char)
    next
      case 3 with ex show ?thesis by (rule num_tail_exp)
    qed
  next
    case False
    with assms Cons have "json_exp t" by (simp add: json_frac_exp_def)
    then show ?thesis using assms(2) by (rule num_tail_exp)
  qed
qed

lemma json_number_chars:
  assumes "json_number v"
  shows "v \<noteq> [] \<and> (\<forall>c\<in>set v. num_char c)"
proof -
  define u where "u = (case v of [] \<Rightarrow> [] | c # r \<Rightarrow> if c = CHR ''-'' then r else v)"
  from assms have ji: "json_int (takeWhile is_digit u)"
    unfolding json_number_def Let_def u_def by (rule conjunct1)
  from assms have jf: "json_frac_exp (dropWhile is_digit u)"
    unfolding json_number_def Let_def u_def by (rule conjunct2)
  from ji have "takeWhile is_digit u \<noteq> []" by (auto simp: json_int_def digits1_def)
  then have une: "u \<noteq> []" by auto
  then have vne: "v \<noteq> []" by (auto simp: u_def)
  have uc: "num_char c" if "c \<in> set u" for c
  proof -
    from that set_take_drop_while [of u is_digit]
    consider "c \<in> set (takeWhile is_digit u)" | "c \<in> set (dropWhile is_digit u)"
      by auto
    then show ?thesis
    proof cases
      case 1
      then have "is_digit c" by (rule set_takeWhileD [THEN conjunct2])
      then show ?thesis by (rule is_digit_num_char)
    next
      case 2 with jf show ?thesis by (rule num_tail_frac)
    qed
  qed
  have m: "num_char CHR ''-''" by (simp add: num_char_def)
  have "v = u \<or> v = CHR ''-'' # u"
    using vne by (cases v) (auto simp: u_def)
  then have "\<forall>c\<in>set v. num_char c"
    using uc m by auto
  with vne show ?thesis by simp
qed

lemma num_char_tight: "num_char c \<Longrightarrow> \<not> is_ws c \<and> c \<noteq> CHR '',''"
  by (auto simp: num_char_def is_ws_def)

lemma json_scalar_chars:
  assumes "json_scalar v"
  shows "v \<noteq> [] \<and> (\<forall>c\<in>set v. \<not> is_ws c \<and> c \<noteq> CHR '','')"
proof -
  from assms consider "json_number v" | "v = ''true''" | "v = ''false''" | "v = ''null''"
    by (auto simp: json_scalar_def)
  then show ?thesis
  proof cases
    case 1
    from json_number_chars [OF this] show ?thesis using num_char_tight by blast
  qed (simp_all add: is_ws_def)
qed

section \<open>Reading the rendered text\<close>

lemma dropWhile_all: "\<forall>c\<in>set a. P c \<Longrightarrow> dropWhile P (a @ s) = dropWhile P s"
  by (induction a) simp_all

lemma trim_pad:
  assumes a: "\<forall>c\<in>set a. is_ws c" and b: "\<forall>c\<in>set b. is_ws c"
    and v: "v \<noteq> []" "\<not> is_ws (hd v)" "\<not> is_ws (last v)"
  shows "trim (a @ v @ b) = v"
proof -
  from v obtain x xs where vx: "v = x # xs" and x: "\<not> is_ws x" by (cases v) auto
  from v obtain y ys where vy: "rev v = y # ys" and y: "\<not> is_ws y"
    by (cases "rev v") (auto simp: last_rev [symmetric] simp del: last_rev)
  have "dropWhile is_ws (a @ v @ b) = v @ b"
    using a x by (simp add: dropWhile_all vx)
  moreover have "dropWhile is_ws (rev b @ rev v) = rev v"
    using b y by (simp add: dropWhile_all vy)
  ultimately show ?thesis by (simp add: trim_def)
qed

lemma trim_pad_tight:
  assumes "\<forall>c\<in>set a. is_ws c" and "\<forall>c\<in>set b. is_ws c"
    and "v \<noteq> []" and "\<forall>c\<in>set v. \<not> is_ws c"
  shows "trim (a @ v @ b) = v"
  using assms by (intro trim_pad) simp_all

lemma split_on_piece:
  "c \<notin> set p \<Longrightarrow> split_on c acc (p @ c # rest) = (rev acc @ p) # split_on c [] rest"
  by (induction p arbitrary: acc) auto

lemma split_on_last: "c \<notin> set p \<Longrightarrow> split_on c acc p = [rev acc @ p]"
  by (induction p arbitrary: acc) auto

lemma takeWhile_stop:
  "\<forall>c\<in>set k. P c \<Longrightarrow> \<not> P x \<Longrightarrow> takeWhile P (k @ x # r) = k"
  by (induction k) simp_all

lemma dropWhile_stop:
  "\<forall>c\<in>set k. P c \<Longrightarrow> \<not> P x \<Longrightarrow> dropWhile P (k @ x # r) = x # r"
  by (induction k) simp_all

lemma read_member_text:
  assumes a: "\<forall>c\<in>set a. is_ws c" and b: "\<forall>c\<in>set b. is_ws c"
    and k: "key_ok k" and v: "json_scalar v"
  shows "read_member (a @ member_text (k, v) @ b) = Some (k, v)"
proof -
  from k have kq: "\<forall>c\<in>set k. c \<noteq> CHR 0x22" by (auto simp: key_ok_def list_all_iff)
  from json_scalar_chars [OF v] have vne: "v \<noteq> []" and vc: "\<forall>c\<in>set v. \<not> is_ws c" by auto
  have 1: "dropWhile is_ws (a @ member_text (k, v) @ b)
      = CHR 0x22 # k @ CHR 0x22 # CHR '':'' # CHR '' '' # v @ b"
    using a by (simp add: dropWhile_all member_text_def is_ws_def)
  have 2: "takeWhile (\<lambda>c. c \<noteq> CHR 0x22) (k @ CHR 0x22 # CHR '':'' # CHR '' '' # v @ b) = k"
    using kq by (simp add: takeWhile_stop)
  have 3: "dropWhile (\<lambda>c. c \<noteq> CHR 0x22) (k @ CHR 0x22 # CHR '':'' # CHR '' '' # v @ b)
      = CHR 0x22 # CHR '':'' # CHR '' '' # v @ b"
    using kq by (simp add: dropWhile_stop)
  have 4: "dropWhile is_ws (CHR '':'' # CHR '' '' # v @ b) = CHR '':'' # CHR '' '' # v @ b"
    by (simp add: is_ws_def)
  have 5: "trim (CHR '' '' # v @ b) = v"
    using trim_pad_tight [of "'' ''" b v] b vne vc by (simp add: is_ws_def)
  show ?thesis
    unfolding read_member_def 1 by (simp add: 2 3 5 k v is_ws_def)
qed

lemma member_text_no_comma:
  assumes "key_ok k" and "json_scalar v"
  shows "CHR '','' \<notin> set (member_text (k, v))"
proof -
  from assms(1) have "\<forall>c\<in>set k. c \<noteq> CHR '',''" by (auto simp: key_ok_def list_all_iff)
  moreover from json_scalar_chars [OF assms(2)] have "\<forall>c\<in>set v. c \<noteq> CHR '',''" by auto
  ultimately show ?thesis by (auto simp: member_text_def)
qed

lemma read_members_join:
  assumes "ms \<noteq> []" and "list_all member_ok ms"
    and "\<forall>c\<in>set acc. is_ws c"
  shows "map read_member (split_on CHR '','' acc (join_lines (map member_text ms) @ ''\<newline>''))
    = map Some ms"
  using assms
proof (induction ms arbitrary: acc)
  case Nil
  then show ?case by simp
next
  case (Cons m ms)
  obtain k v where m: "m = (k, v)" by (cases m)
  from Cons.prems m have k: "key_ok k" and v: "json_scalar v" by (simp_all add: member_ok_def)
  have nc: "CHR '','' \<notin> set (member_text (k, v))" using k v by (rule member_text_no_comma)
  have wa: "\<forall>c\<in>set (rev acc). is_ws c" using Cons.prems(3) by simp
  show ?case
  proof (cases ms)
    case Nil
    have "CHR '','' \<notin> set (member_text (k, v) @ ''\<newline>'')" using nc by simp
    then have "split_on CHR '','' acc (member_text (k, v) @ ''\<newline>'')
        = [rev acc @ member_text (k, v) @ ''\<newline>'']"
      by (rule split_on_last)
    moreover have "read_member (rev acc @ member_text (k, v) @ ''\<newline>'') = Some (k, v)"
      using wa k v by (intro read_member_text) (simp_all add: is_ws_def)
    ultimately show ?thesis using Nil m by simp
  next
    case (Cons m' ms')
    have j: "join_lines (map member_text (m # ms)) @ ''\<newline>''
        = member_text (k, v) @ CHR '','' # (CHR ''\<newline>'' # join_lines (map member_text ms) @ ''\<newline>'')"
      using Cons m by simp
    have s: "split_on CHR '','' acc (join_lines (map member_text (m # ms)) @ ''\<newline>'')
        = (rev acc @ member_text (k, v))
          # split_on CHR '','' ''\<newline>'' (join_lines (map member_text ms) @ ''\<newline>'')"
      unfolding j using nc by (simp add: split_on_piece)
    have r: "read_member (rev acc @ member_text (k, v) @ []) = Some (k, v)"
      using wa k v by (intro read_member_text) simp_all
    have ih: "map read_member (split_on CHR '','' ''\<newline>'' (join_lines (map member_text ms) @ ''\<newline>''))
        = map Some ms"
      using Cons.IH [of "''\<newline>''"] Cons.prems Cons by (simp add: is_ws_def)
    show ?thesis using s r ih m by simp
  qed
qed

lemma member_text_not_ws: "\<exists>c\<in>set (member_text m). \<not> is_ws c"
  by (auto simp: member_text_def is_ws_def)

lemma join_lines_not_ws:
  "ls \<noteq> [] \<Longrightarrow> \<exists>c\<in>set (hd ls). \<not> is_ws c \<Longrightarrow> \<exists>c\<in>set (join_lines ls). \<not> is_ws c"
  by (cases ls rule: join_lines.cases) auto

lemma trim_eq_Nil: "trim s = [] \<Longrightarrow> \<forall>c\<in>set s. is_ws c"
proof -
  assume "trim s = []"
  then have "dropWhile is_ws (rev (dropWhile is_ws s)) = []" by (simp add: trim_def)
  then have "\<forall>c\<in>set (rev (dropWhile is_ws s)). is_ws c" by (simp add: dropWhile_eq_Nil_conv)
  then have "\<forall>c\<in>set (dropWhile is_ws s). is_ws c" by simp
  then have "dropWhile is_ws s = []"
    by (metis hd_dropWhile list.set_sel(1))
  then show ?thesis by (simp add: dropWhile_eq_Nil_conv)
qed

lemma read_object_text:
  assumes "ms \<noteq> []" and "list_all member_ok ms"
  shows "read_object (object_text ms) = Some ms"
proof -
  define body where "body = ''\<newline>'' @ join_lines (map member_text ms) @ ''\<newline>''"
  have ot: "object_text ms = [] @ (CHR ''{'' # body @ ''}'') @ ''\<newline>''"
    by (simp add: object_text_def body_def)
  have t: "trim (object_text ms) = CHR ''{'' # body @ ''}''"
    unfolding ot by (rule trim_pad) (simp_all add: is_ws_def)
  have "\<exists>c\<in>set (join_lines (map member_text ms)). \<not> is_ws c"
    using assms(1) member_text_not_ws [of "hd ms"]
    by (intro join_lines_not_ws) (simp_all add: hd_map)
  then have "\<exists>c\<in>set body. \<not> is_ws c" by (auto simp: body_def)
  then have tb: "trim body \<noteq> []" using trim_eq_Nil [of body] by blast
  have "split_on CHR '','' [] body
      = split_on CHR '','' ''\<newline>'' (join_lines (map member_text ms) @ ''\<newline>'')"
    by (simp add: body_def)
  then have rm: "map read_member (split_on CHR '','' [] body) = map Some ms"
    using read_members_join [OF assms, of "''\<newline>''"] by (simp add: is_ws_def)
  have "list_all (\<lambda>m. m \<noteq> None) (map Some ms)" by (simp add: list_all_iff)
  moreover have "map the (map Some ms) = ms" by (simp add: map_idI)
  ultimately show ?thesis
    unfolding read_object_def t by (simp add: tb rm)
qed

section \<open>What main prints\<close>

lemma hd_show_nat: "n \<noteq> 0 \<Longrightarrow> hd (show_nat n) \<noteq> CHR ''0''"
proof (induction n rule: show_nat.induct)
  case (1 n)
  show ?case
  proof (cases "n < 10")
    case True
    with 1(2) digit_char_cases [of n] show ?thesis
      by (subst show_nat.simps) (auto simp: digit_char_def)
  next
    case False
    then have "n div 10 \<noteq> 0" by simp
    with 1 False have "hd (show_nat (n div 10)) \<noteq> CHR ''0''" by simp
    then show ?thesis
      using False show_nat_nonempty [of "n div 10"] by (subst show_nat.simps) simp
  qed
qed

lemma json_number_show_nat: "json_number (show_nat n)"
proof -
  obtain c r where cr: "show_nat n = c # r"
    using show_nat_nonempty [of n] by (cases "show_nat n") auto
  with show_nat_no_minus [of n] have c: "c \<noteq> CHR ''-''" by simp
  have tw: "takeWhile is_digit (show_nat n) = show_nat n"
    using show_nat_digits [of n] by (simp add: takeWhile_eq_all_conv list_all_iff)
  have dw: "dropWhile is_digit (show_nat n) = []"
    using show_nat_digits [of n] by (simp add: list_all_iff)
  have ji: "json_int (show_nat n)"
  proof (cases "n = 0")
    case True
    then show ?thesis by (simp add: json_int_def show_nat.simps digit_char_def)
  next
    case False
    then show ?thesis
      using hd_show_nat [of n] show_nat_digits [of n] show_nat_nonempty [of n]
      by (simp add: json_int_def digits1_def)
  qed
  have "json_number (c # r)"
    using c ji tw dw unfolding cr by (simp add: json_number_def json_frac_exp_def)
  then show ?thesis by (simp add: cr)
qed

lemma json_number_fmt_d: "json_number (fmt_d i)"
proof (cases "i < 0")
  case True
  have "json_number (show_nat (nat (- i)))" by (rule json_number_show_nat)
  moreover have "hd (show_nat (nat (- i))) \<noteq> CHR ''-''" by (rule show_nat_no_minus)
  ultimately have "json_number (CHR ''-'' # show_nat (nat (- i)))"
    using show_nat_nonempty [of "nat (- i)"]
    by (cases "show_nat (nat (- i))") (auto simp: json_number_def split: if_splits)
  with True show ?thesis by (simp add: fmt_d_def)
next
  case False
  then show ?thesis by (simp add: fmt_d_def json_number_show_nat)
qed

lemma member_ok_number: "key_ok k \<Longrightarrow> json_number v \<Longrightarrow> member_ok (k, v)"
  by (simp add: member_ok_def json_scalar_def)

lemma perf_block_ok:
  assumes "\<forall>x. json_number (fmt_g x)"
  shows "list_all member_ok (spec_perf_block fmt_g perf)"
proof (cases perf)
  case (Inl code)
  then show ?thesis
    by (simp add: spec_perf_block_def member_ok_def json_scalar_def json_number_fmt_d key_ok_def)
next
  case (Inr p)
  then show ?thesis
    by (simp add: spec_perf_block_def member_ok_def json_scalar_def json_number_fmt_d key_ok_def assms)
qed

lemma health_block_ok:
  assumes "\<forall>x. json_number (fmt_g x)"
  shows "list_all member_ok (spec_health_block fmt_g health)"
proof (cases health)
  case (Inl code)
  then show ?thesis
    by (simp add: spec_health_block_def member_ok_def json_scalar_def json_number_fmt_d key_ok_def)
next
  case (Inr p)
  then show ?thesis
    by (simp add: spec_health_block_def member_ok_def json_scalar_def json_number_fmt_d key_ok_def assms)
qed

lemma perf_block_nonempty: "spec_perf_block fmt_g perf \<noteq> []"
  by (simp add: spec_perf_block_def split: sum.splits)

lemma rendered_text:
  "stdout (printf ''}\<newline>'' (print_health fmt_g health (print_performance fmt_g perf
      (printf ''{\<newline>'' st))))
    = stdout st @ object_text (spec_perf_block fmt_g perf @ spec_health_block fmt_g health)"
proof (cases perf; cases health)
qed (simp_all add: printf_def print_performance_def print_health_def object_text_def
    spec_perf_block_def spec_health_block_def member_text_def)

lemma printf_other:
  "world (printf t st) = world st" "stderr (printf t st) = stderr st"
  "calls (printf t st) = calls st"
  by (simp_all add: printf_def)

lemma print_performance_other:
  "world (print_performance g perf st) = world st"
  "stderr (print_performance g perf st) = stderr st"
  "calls (print_performance g perf st) = calls st"
  by (simp_all add: print_performance_def printf_def split: sum.splits)

lemma print_health_other:
  "world (print_health g health st) = world st"
  "stderr (print_health g health st) = stderr st"
  "calls (print_health g health st) = calls st"
  by (simp_all add: print_health_def printf_def split: sum.splits)

lemma process_eqI:
  "world a = world b \<Longrightarrow> stdout a = stdout b \<Longrightarrow> stderr a = stderr b \<Longrightarrow> calls a = calls b
    \<Longrightarrow> (a :: ('w, 'id, 'h) process) = b"
  by simp

lemma main_queries:
  assumes "scan s w0 = (Inr (d # ds), w1)" and "create s d w1 = (Inr dev, w2)"
    and "query_performance_stats s dev w2 = (perf, w3)"
    and "query_health_stats s dev w3 = (health, w4)"
  shows "main fmt_g s w0 =
    (0, \<lparr>world = w4,
         stdout = object_text (spec_perf_block fmt_g perf @ spec_health_block fmt_g health),
         stderr = [],
         calls = [Scan, Create d, QueryPerformanceStats dev, QueryHealthStats dev]\<rparr>)"
proof -
  define st4 where
    "st4 = \<lparr>world = w4, stdout = [], stderr = [],
            calls = [Scan, Create d, QueryPerformanceStats dev, QueryHealthStats dev]\<rparr>"
  have m: "main fmt_g s w0 =
      (0, printf ''}\<newline>'' (print_health fmt_g health (print_performance fmt_g perf
            (printf ''{\<newline>'' st4))))"
    using assms by (simp add: main_def invoke_def st4_def)
  show ?thesis
    unfolding m
    by (simp, intro process_eqI)
      (simp_all add: rendered_text printf_other print_health_other print_performance_other st4_def)
qed

lemma read_rendered:
  assumes "\<forall>x. json_number (fmt_g x)"
  shows "read_object (object_text (spec_perf_block fmt_g perf @ spec_health_block fmt_g health))
    = Some (spec_perf_block fmt_g perf @ spec_health_block fmt_g health)"
  using perf_block_ok [OF assms, of perf] health_block_ok [OF assms, of health]
    perf_block_nonempty [of fmt_g perf]
  by (intro read_object_text) simp_all

lemma fmt_g_sample_number: "\<forall>x. json_number (fmt_g_sample x)"
  by (simp add: fmt_g_sample_def json_number_def json_int_def json_frac_exp_def json_exp_def
      digits1_def is_digit_def)

lemma sint_small_64: "unat (w :: 64 word) < 2 ^ 63 \<Longrightarrow> sint w = int (unat w)"
proof -
  assume a: "unat w < 2 ^ 63"
  have "int (unat w) < int (2 ^ 63)" using a by (rule iffD2 [OF of_nat_less_iff])
  then have "uint w < 2 ^ 63" by (simp only: uint_nat of_nat_power of_nat_numeral)
  moreover have "- (2 ^ 63) \<le> uint w"
    by (rule order_trans [of _ 0]) simp_all
  ultimately have "signed_take_bit 63 (uint w) = uint w"
    by (rule signed_take_bit_int_eq_self [rotated])
  moreover have "sint w = signed_take_bit 63 (uint w)"
    by (simp add: sint_uint)
  ultimately show ?thesis by (simp only: uint_nat)
qed

lemma sint_small_32: "unat (w :: 32 word) < 2 ^ 31 \<Longrightarrow> sint w = int (unat w)"
proof -
  assume a: "unat w < 2 ^ 31"
  have "int (unat w) < int (2 ^ 31)" using a by (rule iffD2 [OF of_nat_less_iff])
  then have "uint w < 2 ^ 31" by (simp only: uint_nat of_nat_power of_nat_numeral)
  moreover have "- (2 ^ 31) \<le> uint w"
    by (rule order_trans [of _ 0]) simp_all
  ultimately have "signed_take_bit 31 (uint w) = uint w"
    by (rule signed_take_bit_int_eq_self [rotated])
  moreover have "sint w = signed_take_bit 31 (uint w)"
    by (simp add: sint_uint)
  ultimately show ?thesis by (simp only: uint_nat)
qed

lemma fmt_d_nat: "fmt_d (int n) = show_nat n"
  by (simp add: fmt_d_def)



section \<open>Runs with given floating values\<close>








section \<open>Fatal paths\<close>

text \<open>
  C5. If device enumeration yields an empty sequence, the process exits with code 1,
  writes nothing to standard output, writes exactly the line
  \<open>hailo_perf_query: no devices found\<close> to standard error, and makes no SDK call after
  the scan (no open, no query).
\<close>

theorem no_devices_exit:
  assumes "scan s w0 = (Inr [], w1)"
  shows "main fmt_g s w0 =
    (1, \<lparr>world = w1, stdout = [], stderr = ''hailo_perf_query: no devices found\<newline>'',
         calls = [Scan]\<rparr>)"
  using assms by (simp add: main_def invoke_def fprintf_stderr_def)

theorem no_devices_exit_witness:
  "main fmt_g_sample (fake_sdk (Inr []) Inr (Inl 1) (Inl 1)) 0 =
    (1, \<lparr>world = 1, stdout = [], stderr = ''hailo_perf_query: no devices found\<newline>'',
         calls = [Scan]\<rparr>)"
  using no_devices_exit [of "fake_sdk (Inr []) Inr (Inl 1) (Inl 1)" 0 1 fmt_g_sample]
  by (simp add: fake_sdk_def)

text \<open>
  C10. If the scan itself fails (an error, not an empty sequence), the process takes the
  path of the no-devices case: exit code 1, nothing on standard output, the same
  \<open>no devices found\<close> line on standard error, and no further SDK call. The error status
  \<open>e\<close> appears nowhere in the result.
\<close>

theorem scan_error_exit:
  assumes "scan s w0 = (Inl e, w1)"
  shows "main fmt_g s w0 =
    (1, \<lparr>world = w1, stdout = [], stderr = ''hailo_perf_query: no devices found\<newline>'',
         calls = [Scan]\<rparr>)"
  using assms by (simp add: main_def invoke_def fprintf_stderr_def)

theorem scan_error_exit_witness:
  "main fmt_g_sample (fake_sdk (Inl 26) Inr (Inl 1) (Inl 1)) 0 =
    (1, \<lparr>world = 1, stdout = [], stderr = ''hailo_perf_query: no devices found\<newline>'',
         calls = [Scan]\<rparr>)"
  using scan_error_exit [of "fake_sdk (Inl 26) Inr (Inl 1) (Inl 1)" 0 26 1 fmt_g_sample]
  by (simp add: fake_sdk_def)

text \<open>
  C6. If opening the first device fails with status \<open>S\<close>, the process exits with code 1,
  writes nothing to standard output, and writes one line to standard error (a single
  newline, at its end) that contains \<open>status=\<close> followed by \<open>S\<close> as a signed decimal
  integer: reading the digits back gives \<open>S\<close>.
\<close>

theorem open_failure_exit:
  assumes "scan s w0 = (Inr (d # ds), w1)" and "create s d w1 = (Inl status, w2)"
  shows "main fmt_g s w0 =
      (1, \<lparr>world = w2, stdout = [],
           stderr = ''hailo_perf_query: failed to open device (status=''
                      @ fmt_d (sint status) @ '')\<newline>'',
           calls = [Scan, Create d]\<rparr>)
    \<and> length (filter (\<lambda>c. c = CHR ''\<newline>'') (stderr (snd (main fmt_g s w0)))) = 1
    \<and> read_d (fmt_d (sint status)) = sint status"
proof -
  have m: "main fmt_g s w0 =
      (1, \<lparr>world = w2, stdout = [],
           stderr = ''hailo_perf_query: failed to open device (status=''
                      @ fmt_d (sint status) @ '')\<newline>'',
           calls = [Scan, Create d]\<rparr>)"
    using assms by (simp add: main_def invoke_def fprintf_stderr_def)
  have "filter (\<lambda>c. c = CHR ''\<newline>'') (fmt_d (sint status)) = []"
    using fmt_d_no_newline [of "sint status"] by (auto simp: filter_empty_conv)
  then show ?thesis using m by (simp add: read_d_fmt_d)
qed

theorem open_failure_exit_witness:
  "main fmt_g_sample (fake_sdk (Inr [7, 8]) (\<lambda>i. Inl 61) (Inl 1) (Inl 1)) 0 =
      (1, \<lparr>world = 2, stdout = [],
           stderr = ''hailo_perf_query: failed to open device (status=61)\<newline>'',
           calls = [Scan, Create 7]\<rparr>)"
  using open_failure_exit [of "fake_sdk (Inr [7, 8]) (\<lambda>i. Inl 61) (Inl 1) (Inl 1)" 0 7 "[8]" 1 61 2
      fmt_g_sample]
  by (simp add: fake_sdk_def fmt_d_def show_nat.simps digit_char_def)

section \<open>Device selection\<close>

text \<open>
  C7. In every run the identifiers opened are the first identifier of the scanned
  sequence and no other (none when the scan fails or is empty), and every handle queried
  is the one that opening that first identifier returned.
\<close>

theorem first_device_only:
  "opened (calls (snd (main fmt_g s w0))) =
      (case fst (scan s w0) of Inl _ \<Rightarrow> [] | Inr ids \<Rightarrow> take 1 ids)
   \<and> list_all
        (\<lambda>h. case fst (scan s w0) of
               Inr (d # _) \<Rightarrow> fst (create s d (snd (scan s w0))) = Inr h
             | _ \<Rightarrow> False)
        (queried (calls (snd (main fmt_g s w0))))"
  by (simp add: main_def invoke_def fprintf_stderr_def printf_def print_performance_def
      print_health_def Let_def split: prod.splits sum.splits list.splits)

theorem first_device_only_witness:
  "opened (calls (snd (main fmt_g_sample
      (fake_sdk (Inr [7, 8, 9]) (\<lambda>i. Inr (i + 100)) (Inl 1) (Inl 1)) 0))) = [7]
   \<and> queried (calls (snd (main fmt_g_sample
      (fake_sdk (Inr [7, 8, 9]) (\<lambda>i. Inr (i + 100)) (Inl 1) (Inl 1)) 0))) = [107, 107]"
  using first_device_only [of fmt_g_sample
      "fake_sdk (Inr [7, 8, 9]) (\<lambda>i. Inr (i + 100)) (Inl 1) (Inl 1)" 0]
  by (simp add: fake_sdk_def main_def invoke_def printf_def print_performance_def
      print_health_def)

section \<open>The JSON output\<close>




text \<open>
  C2. Given a device whose performance query returns \<open>ram_size_total = 1073741824\<close>,
  \<open>ram_size_used = 536870912\<close>, \<open>dsp_utilization = 5\<close> and floating values that
  \<open>%g\<close> prints as \<open>0.42\<close> and \<open>0.1\<close>, and whose health query returns
  \<open>on_die_voltage = 900\<close>, \<open>bist_failure_mask = 0\<close> and a temperature that \<open>%g\<close> prints as
  \<open>55.5\<close>, standard output is exactly the ten-key object of section 6 with those values,
  \<open>perf_ok\<close> and \<open>health_ok\<close> both \<open>true\<close>, and the exit code is 0.
\<close>

theorem full_success_output:
  assumes "scan s w0 = (Inr (d # ds), w1)" and "create s d w1 = (Inr dev, w2)"
    and "query_performance_stats s dev w2 =
          (Inr \<lparr>cpu_utilization = c, ram_size_total = 1073741824, ram_size_used = 536870912,
                nnc_utilization = n, dsp_utilization = 5\<rparr>, w3)"
    and "query_health_stats s dev w3 =
          (Inr \<lparr>on_die_temperature = t, on_die_voltage = 900, bist_failure_mask = 0\<rparr>, w4)"
    and "fmt_g c = ''0.42''" and "fmt_g n = ''0.1''" and "fmt_g t = ''55.5''"
  shows \<open>main fmt_g s w0 =
    (0, \<lparr>world = w4,
         stdout =
           ''{\<newline>'' @
           ''  "cpu_utilization": 0.42,\<newline>'' @
           ''  "ram_size_total": 1073741824,\<newline>'' @
           ''  "ram_size_used": 536870912,\<newline>'' @
           ''  "nnc_utilization": 0.1,\<newline>'' @
           ''  "dsp_utilization": 5,\<newline>'' @
           ''  "perf_ok": true,\<newline>'' @
           ''  "on_die_temperature": 55.5,\<newline>'' @
           ''  "on_die_voltage": 900,\<newline>'' @
           ''  "bist_failure_mask": 0,\<newline>'' @
           ''  "health_ok": true\<newline>'' @
           ''}\<newline>'',
         stderr = [],
         calls = [Scan, Create d, QueryPerformanceStats dev, QueryHealthStats dev]\<rparr>)\<close>
  using assms
  by (simp add: main_def invoke_def printf_def print_performance_def print_health_def
      fmt_d_def show_nat.simps digit_char_def)

theorem full_success_output_witness:
  \<open>main fmt_g_sample (fake_sdk (Inr [7, 8]) Inr (Inr perf_sample) (Inr health_sample)) 0 =
    (0, \<lparr>world = 4,
         stdout =
           ''{\<newline>'' @
           ''  "cpu_utilization": 0.42,\<newline>'' @
           ''  "ram_size_total": 1073741824,\<newline>'' @
           ''  "ram_size_used": 536870912,\<newline>'' @
           ''  "nnc_utilization": 0.1,\<newline>'' @
           ''  "dsp_utilization": 5,\<newline>'' @
           ''  "perf_ok": true,\<newline>'' @
           ''  "on_die_temperature": 55.5,\<newline>'' @
           ''  "on_die_voltage": 900,\<newline>'' @
           ''  "bist_failure_mask": 0,\<newline>'' @
           ''  "health_ok": true\<newline>'' @
           ''}\<newline>'',
         stderr = [],
         calls = [Scan, Create 7, QueryPerformanceStats 7, QueryHealthStats 7]\<rparr>)\<close>
  using full_success_output [of "fake_sdk (Inr [7, 8]) Inr (Inr perf_sample) (Inr health_sample)"
      0 7 "[8]" 1 7 2 "0.42" "0.1" 3 "55.5" 4 fmt_g_sample]
  by (simp add: fake_sdk_def perf_sample_def health_sample_def fmt_g_sample_def)

text \<open>
  C3. The two queries are independent. For every pair of outcomes, and whatever \<open>%g\<close>
  prints, both queries are invoked, on the same handle, and the exit code is 0. The text
  of the performance block is determined by the outcome of the performance query alone
  and that of the health block by the outcome of the health query alone: a failing query
  is printed as its \<open>_ok\<close> flag \<open>false\<close> followed by its \<open>_error\<close> key with the status
  as a decimal number, and a succeeding one as its fields followed by its flag \<open>true\<close>.
\<close>

theorem queries_independent:
  assumes "scan s w0 = (Inr (d # ds), w1)" and "create s d w1 = (Inr dev, w2)"
    and "query_performance_stats s dev w2 = (perf, w3)"
    and "query_health_stats s dev w3 = (health, w4)"
  shows \<open>fst (main fmt_g s w0) = 0
    \<and> calls (snd (main fmt_g s w0))
        = [Scan, Create d, QueryPerformanceStats dev, QueryHealthStats dev]
    \<and> stdout (snd (main fmt_g s w0)) =
        ''{\<newline>'' @
        (case perf of
           Inl e \<Rightarrow>
             ''  "perf_ok": false,\<newline>'' @
             ''  "perf_error": '' @ fmt_d (sint e) @ '',\<newline>''
         | Inr p \<Rightarrow>
             ''  "cpu_utilization": '' @ fmt_g (cpu_utilization p) @ '',\<newline>'' @
             ''  "ram_size_total": '' @ fmt_d (sint (ram_size_total p)) @ '',\<newline>'' @
             ''  "ram_size_used": '' @ fmt_d (sint (ram_size_used p)) @ '',\<newline>'' @
             ''  "nnc_utilization": '' @ fmt_g (nnc_utilization p) @ '',\<newline>'' @
             ''  "dsp_utilization": '' @ fmt_d (sint (dsp_utilization p)) @ '',\<newline>'' @
             ''  "perf_ok": true,\<newline>'') @
        (case health of
           Inl e \<Rightarrow>
             ''  "health_ok": false,\<newline>'' @
             ''  "health_error": '' @ fmt_d (sint e) @ ''\<newline>''
         | Inr h \<Rightarrow>
             ''  "on_die_temperature": '' @ fmt_g (on_die_temperature h) @ '',\<newline>'' @
             ''  "on_die_voltage": '' @ fmt_d (sint (on_die_voltage h)) @ '',\<newline>'' @
             ''  "bist_failure_mask": '' @ fmt_d (sint (bist_failure_mask h)) @ '',\<newline>'' @
             ''  "health_ok": true\<newline>'') @
        ''}\<newline>''
    \<and> (case perf of
          Inl e \<Rightarrow> json_number (fmt_d (sint e)) \<and> read_d (fmt_d (sint e)) = sint e
        | Inr _ \<Rightarrow> True)
    \<and> (case health of
          Inl e \<Rightarrow> json_number (fmt_d (sint e)) \<and> read_d (fmt_d (sint e)) = sint e
        | Inr _ \<Rightarrow> True)\<close>
proof -
  have m: "main fmt_g s w0 =
      (0, \<lparr>world = w4,
           stdout = object_text (spec_perf_block fmt_g perf @ spec_health_block fmt_g health),
           stderr = [],
           calls = [Scan, Create d, QueryPerformanceStats dev, QueryHealthStats dev]\<rparr>)"
    using assms by (rule main_queries)
  show ?thesis
    unfolding m
    by (cases perf; cases health)
      (simp_all add: object_text_def spec_perf_block_def spec_health_block_def member_text_def
        json_number_fmt_d read_d_fmt_d)
qed

theorem queries_independent_witness:
  \<open>fst (main fmt_g_ieee (fake_sdk (Inr [7, 8]) Inr (Inl 3) (Inr health_nan)) 0) = 0
    \<and> calls (snd (main fmt_g_ieee (fake_sdk (Inr [7, 8]) Inr (Inl 3) (Inr health_nan)) 0))
        = [Scan, Create 7, QueryPerformanceStats 7, QueryHealthStats 7]
    \<and> stdout (snd (main fmt_g_ieee (fake_sdk (Inr [7, 8]) Inr (Inl 3) (Inr health_nan)) 0)) =
        ''{\<newline>'' @
        ''  "perf_ok": false,\<newline>'' @
        ''  "perf_error": 3,\<newline>'' @
        ''  "on_die_temperature": nan,\<newline>'' @
        ''  "on_die_voltage": 900,\<newline>'' @
        ''  "bist_failure_mask": 0,\<newline>'' @
        ''  "health_ok": true\<newline>'' @
        ''}\<newline>''\<close>
proof -
  let ?a = "fake_sdk (Inr [7, 8]) Inr (Inl 3) (Inr health_nan) :: (nat, nat, nat, c_float) sdk"
  have a: "scan ?a 0 = (Inr (7 # [8]), 1)" "create ?a 7 1 = (Inr 7, 2)"
    "query_performance_stats ?a 7 2 = (Inl 3, 3)"
    "query_health_stats ?a 7 3 = (Inr health_nan, 4)"
    by (simp_all add: fake_sdk_def)
  show ?thesis
    using queries_independent [OF a, of fmt_g_ieee]
    by (simp add: health_nan_def health_finite_def fmt_g_ieee_def fmt_d_def show_nat.simps
        digit_char_def)
qed

text \<open>
  C4. The order of the keys differs by branch. For every pair of outcomes, and whatever
  \<open>%g\<close> prints, standard output is the text of an object whose members are, in order: for
  the performance block on success the five data keys followed by \<open>perf_ok\<close> with value
  \<open>true\<close>, on failure \<open>perf_ok\<close> with value \<open>false\<close> followed at once by \<open>perf_error\<close>
  with the status code; then for the health block on success the three data keys followed
  by \<open>health_ok\<close> with value \<open>true\<close>, on failure \<open>health_ok\<close> with value \<open>false\<close>
  followed at once by \<open>health_error\<close> with the status code.
\<close>

theorem key_order_by_branch:
  assumes "scan s w0 = (Inr (d # ds), w1)" and "create s d w1 = (Inr dev, w2)"
    and "query_performance_stats s dev w2 = (perf, w3)"
    and "query_health_stats s dev w3 = (health, w4)"
  shows "stdout (snd (main fmt_g s w0)) =
    object_text
      ((case perf of
          Inr p \<Rightarrow>
            [(''cpu_utilization'', fmt_g (cpu_utilization p)),
             (''ram_size_total'', fmt_d (sint (ram_size_total p))),
             (''ram_size_used'', fmt_d (sint (ram_size_used p))),
             (''nnc_utilization'', fmt_g (nnc_utilization p)),
             (''dsp_utilization'', fmt_d (sint (dsp_utilization p))),
             (''perf_ok'', ''true'')]
        | Inl e \<Rightarrow> [(''perf_ok'', ''false''), (''perf_error'', fmt_d (sint e))])
       @ (case health of
            Inr h \<Rightarrow>
              [(''on_die_temperature'', fmt_g (on_die_temperature h)),
               (''on_die_voltage'', fmt_d (sint (on_die_voltage h))),
               (''bist_failure_mask'', fmt_d (sint (bist_failure_mask h))),
               (''health_ok'', ''true'')]
          | Inl e \<Rightarrow> [(''health_ok'', ''false''), (''health_error'', fmt_d (sint e))]))"
  using main_queries [OF assms, of fmt_g]
  by (simp add: spec_perf_block_def spec_health_block_def)

theorem key_order_by_branch_witness:
  "stdout (snd (main fmt_g_ieee (fake_sdk (Inr [7, 8]) Inr (Inr perf_finite) (Inl 3)) 0)) =
    object_text
      [(''cpu_utilization'', ''0.42''), (''ram_size_total'', ''1073741824''),
       (''ram_size_used'', ''536870912''), (''nnc_utilization'', ''0.1''),
       (''dsp_utilization'', ''5''), (''perf_ok'', ''true''),
       (''health_ok'', ''false''), (''health_error'', ''3'')]"
proof -
  let ?a = "fake_sdk (Inr [7, 8]) Inr (Inr perf_finite) (Inl 3) :: (nat, nat, nat, c_float) sdk"
  have a: "scan ?a 0 = (Inr (7 # [8]), 1)" "create ?a 7 1 = (Inr 7, 2)"
    "query_performance_stats ?a 7 2 = (Inr perf_finite, 3)"
    "query_health_stats ?a 7 3 = (Inl 3, 4)"
    by (simp_all add: fake_sdk_def)
  show ?thesis
    using key_order_by_branch [OF a, of fmt_g_ieee]
    by (simp add: perf_finite_def fmt_g_ieee_def fmt_g_sample_def fmt_d_def show_nat.simps
        digit_char_def)
qed




section \<open>Integer fields\<close>

lemma digits1_show_nat: "digits1 (show_nat n)"
  by (simp add: digits1_def show_nat_nonempty show_nat_digits)

lemma fmt_d_sint_64: "unat (w :: 64 word) < 2 ^ 63 \<Longrightarrow> fmt_d (sint w) = show_nat (unat w)"
  by (simp only: sint_small_64 fmt_d_nat)

lemma fmt_d_sint_32: "unat (w :: 32 word) < 2 ^ 31 \<Longrightarrow> fmt_d (sint w) = show_nat (unat w)"
  by (simp only: sint_small_32 fmt_d_nat)

lemma numeral_64:
  "unat (w :: 64 word) < 2 ^ 63
    \<Longrightarrow> digits1 (fmt_d (sint w)) \<and> dec_value (fmt_d (sint w)) = unat w"
  by (simp only: fmt_d_sint_64 digits1_show_nat dec_value_show_nat simp_thms)

lemma numeral_32:
  "unat (w :: 32 word) < 2 ^ 31
    \<Longrightarrow> digits1 (fmt_d (sint w)) \<and> dec_value (fmt_d (sint w)) = unat w"
  by (simp only: fmt_d_sint_32 digits1_show_nat dec_value_show_nat simp_thms)

text \<open>
  C8, as amended. The text printed for each integer field is the signed decimal of the
  field. After a successful performance query, \<open>ram_size_total\<close> is printed as a non-empty
  string of decimal digits whose value is the value of the field whenever that value is
  below \<open>2^63\<close>, and so is \<open>ram_size_used\<close> under its own bound; after a successful
  health query, so is \<open>bist_failure_mask\<close> whenever its value is below \<open>2^31\<close>. Each holds
  whatever the other query returns and whatever \<open>%g\<close> prints.
\<close>

theorem byte_counts_rendered:
  assumes "scan s w0 = (Inr (d # ds), w1)" and "create s d w1 = (Inr dev, w2)"
    and "query_performance_stats s dev w2 = (perf, w3)"
    and "query_health_stats s dev w3 = (health, w4)"
  shows "stdout (snd (main fmt_g s w0)) =
      object_text
        ((case perf of
            Inr p \<Rightarrow>
              [(''cpu_utilization'', fmt_g (cpu_utilization p)),
               (''ram_size_total'', fmt_d (sint (ram_size_total p))),
               (''ram_size_used'', fmt_d (sint (ram_size_used p))),
               (''nnc_utilization'', fmt_g (nnc_utilization p)),
               (''dsp_utilization'', fmt_d (sint (dsp_utilization p))),
               (''perf_ok'', ''true'')]
          | Inl e \<Rightarrow> [(''perf_ok'', ''false''), (''perf_error'', fmt_d (sint e))])
         @ (case health of
              Inr h \<Rightarrow>
                [(''on_die_temperature'', fmt_g (on_die_temperature h)),
                 (''on_die_voltage'', fmt_d (sint (on_die_voltage h))),
                 (''bist_failure_mask'', fmt_d (sint (bist_failure_mask h))),
                 (''health_ok'', ''true'')]
            | Inl e \<Rightarrow> [(''health_ok'', ''false''), (''health_error'', fmt_d (sint e))]))
    \<and> (case perf of
          Inl _ \<Rightarrow> True
        | Inr p \<Rightarrow>
            (unat (ram_size_total p) < 2 ^ 63 \<longrightarrow>
               digits1 (fmt_d (sint (ram_size_total p)))
               \<and> dec_value (fmt_d (sint (ram_size_total p))) = unat (ram_size_total p))
            \<and> (unat (ram_size_used p) < 2 ^ 63 \<longrightarrow>
               digits1 (fmt_d (sint (ram_size_used p)))
               \<and> dec_value (fmt_d (sint (ram_size_used p))) = unat (ram_size_used p)))
    \<and> (case health of
          Inl _ \<Rightarrow> True
        | Inr h \<Rightarrow>
            (unat (bist_failure_mask h) < 2 ^ 31 \<longrightarrow>
               digits1 (fmt_d (sint (bist_failure_mask h)))
               \<and> dec_value (fmt_d (sint (bist_failure_mask h))) = unat (bist_failure_mask h)))"
proof -
  have t: "stdout (snd (main fmt_g s w0))
      = object_text (spec_perf_block fmt_g perf @ spec_health_block fmt_g health)"
    using main_queries [OF assms, of fmt_g] by simp
  show ?thesis
    unfolding t
    by (cases perf; cases health)
      (simp_all add: spec_perf_block_def spec_health_block_def numeral_64 numeral_32)
qed

theorem byte_counts_rendered_witness:
  "stdout (snd (main fmt_g_sample (fake_sdk (Inr [7, 8]) Inr (Inr perf_top_bit) (Inl 3)) 0)) =
      object_text
        [(''cpu_utilization'', ''0.42''), (''ram_size_total'', ''-9223372036854775808''),
         (''ram_size_used'', ''536870912''), (''nnc_utilization'', ''0.1''),
         (''dsp_utilization'', ''5''), (''perf_ok'', ''true''),
         (''health_ok'', ''false''), (''health_error'', ''3'')]
    \<and> unat (ram_size_used perf_top_bit) = 536870912
    \<and> digits1 ''536870912'' \<and> dec_value ''536870912'' = 536870912"
proof -
  let ?a = "fake_sdk (Inr [7, 8]) Inr (Inr perf_top_bit) (Inl 3)"
  have a: "scan ?a 0 = (Inr (7 # [8]), 1)" "create ?a 7 1 = (Inr 7, 2)"
    "query_performance_stats ?a 7 2 = (Inr perf_top_bit, 3)"
    "query_health_stats ?a 7 3 = (Inl 3, 4)"
    by (simp_all add: fake_sdk_def)
  show ?thesis
    using byte_counts_rendered [OF a, of fmt_g_sample]
    by (simp add: perf_top_bit_def perf_sample_def fmt_g_sample_def fmt_d_def show_nat.simps
        digit_char_def)
qed

text \<open>
  The bounds are needed: \<open>main\<close> casts the byte counts to \<open>long long\<close> and prints them
  with \<open>%lld\<close>, and prints the mask with \<open>%d\<close>, so a byte count of \<open>2^63\<close> and a mask
  with bit 31 set are both printed with a minus sign.
\<close>

theorem byte_count_sign_counterexample:
  "read_object (stdout (snd (main fmt_g_sample
      (fake_sdk (Inr [7, 8]) Inr (Inr perf_top_bit) (Inr health_top_bit)) 0))) =
    Some [(''cpu_utilization'', ''0.42''), (''ram_size_total'', ''-9223372036854775808''),
          (''ram_size_used'', ''536870912''), (''nnc_utilization'', ''0.1''),
          (''dsp_utilization'', ''5''), (''perf_ok'', ''true''),
          (''on_die_temperature'', ''55.5''), (''on_die_voltage'', ''900''),
          (''bist_failure_mask'', ''-2147483648''), (''health_ok'', ''true'')]
   \<and> unat (ram_size_total perf_top_bit) = 9223372036854775808
   \<and> \<not> digits1 ''-9223372036854775808''
   \<and> unat (bist_failure_mask health_top_bit) = 2147483648
   \<and> \<not> digits1 ''-2147483648''"
proof -
  let ?a = "fake_sdk (Inr [7, 8]) Inr (Inr perf_top_bit) (Inr health_top_bit)"
  have a: "scan ?a 0 = (Inr (7 # [8]), 1)" "create ?a 7 1 = (Inr 7, 2)"
    "query_performance_stats ?a 7 2 = (Inr perf_top_bit, 3)"
    "query_health_stats ?a 7 3 = (Inr health_top_bit, 4)"
    by (simp_all add: fake_sdk_def)
  have m: "stdout (snd (main fmt_g_sample ?a 0))
      = object_text (spec_perf_block fmt_g_sample (Inr perf_top_bit)
          @ spec_health_block fmt_g_sample (Inr health_top_bit))"
    using main_queries [OF a, of fmt_g_sample] by simp
  have v: "spec_perf_block fmt_g_sample (Inr perf_top_bit)
          @ spec_health_block fmt_g_sample (Inr health_top_bit) =
      [(''cpu_utilization'', ''0.42''), (''ram_size_total'', ''-9223372036854775808''),
       (''ram_size_used'', ''536870912''), (''nnc_utilization'', ''0.1''),
       (''dsp_utilization'', ''5''), (''perf_ok'', ''true''),
       (''on_die_temperature'', ''55.5''), (''on_die_voltage'', ''900''),
       (''bist_failure_mask'', ''-2147483648''), (''health_ok'', ''true'')]"
    by (simp add: spec_perf_block_def spec_health_block_def perf_top_bit_def perf_sample_def
        health_top_bit_def health_sample_def fmt_g_sample_def fmt_d_def show_nat.simps
        digit_char_def)
  have r: "read_object (stdout (snd (main fmt_g_sample ?a 0)))
      = Some (spec_perf_block fmt_g_sample (Inr perf_top_bit)
          @ spec_health_block fmt_g_sample (Inr health_top_bit))"
    unfolding m using fmt_g_sample_number by (rule read_rendered)
  have u: "unat (ram_size_total perf_top_bit) = 9223372036854775808"
    "unat (bist_failure_mask health_top_bit) = 2147483648"
    by (simp_all add: perf_top_bit_def perf_sample_def health_top_bit_def health_sample_def)
  have n: "\<not> digits1 ''-9223372036854775808''" "\<not> digits1 ''-2147483648''"
    by (simp_all add: digits1_def is_digit_def)
  show ?thesis using r u n unfolding v by simp
qed

end
